theory Spec2Isabelle
  imports Main
begin

section \<open>Python values, dictionaries and the builtins the module relies on\<close>

text \<open>
  The module \<^verbatim>\<open>common/resolve.py\<close> works on a list of dictionaries (one per subdomain,
  string keys such as \<^verbatim>\<open>'subdomain'\<close> and \<^verbatim>\<open>'ips'\<close>). Field values are dynamically typed;
  the values that matter here are \<^verbatim>\<open>None\<close>, integers, strings and lists of strings.
  Strings are lists of 8-bit characters, read as the code points 0..255.
\<close>

datatype pyval = PNone | PInt int | PStr string | PList "string list"

type_synonym pydict = "string \<rightharpoonup> pyval"

text \<open>\<^verbatim>\<open>d.get(k)\<close>: the value stored under \<^verbatim>\<open>k\<close>, and \<^verbatim>\<open>None\<close> when the key is absent.\<close>

definition dict_get :: "pydict \<Rightarrow> string \<Rightarrow> pyval" where
  "dict_get d k = (case d k of None \<Rightarrow> PNone | Some v \<Rightarrow> v)"

text \<open>Truth value testing, as \<^verbatim>\<open>not x\<close> and \<^verbatim>\<open>if x\<close> perform it.\<close>

fun truthy :: "pyval \<Rightarrow> bool" where
  "truthy PNone = False"
| "truthy (PInt i) = (i \<noteq> 0)"
| "truthy (PStr s) = (s \<noteq> [])"
| "truthy (PList xs) = (xs \<noteq> [])"

text \<open>A list cannot be used as a dictionary key; the other values can.\<close>

fun hashable :: "pyval \<Rightarrow> bool" where
  "hashable (PList xs) = False"
| "hashable v = True"

datatype error = TypeError

subsection \<open>\<^verbatim>\<open>str\<close> and \<^verbatim>\<open>repr\<close>\<close>

definition py_printable :: "char \<Rightarrow> bool" where
  "py_printable c =
     (let n = (of_char c :: nat)
      in (0x20 \<le> n \<and> n \<le> 0x7e) \<or> (0xa1 \<le> n \<and> n \<noteq> 0xad))"

definition hex_digit :: "nat \<Rightarrow> char" where
  "hex_digit n = ''0123456789abcdef'' ! (n mod 16)"

definition py_escape_char :: "char \<Rightarrow> char \<Rightarrow> string" where
  "py_escape_char quote c =
     (if c = quote \<or> c = CHR 0x5C then [CHR 0x5C, c]
      else if c = CHR 0x09 then [CHR 0x5C, CHR ''t'']
      else if c = CHR 0x0A then [CHR 0x5C, CHR ''n'']
      else if c = CHR 0x0D then [CHR 0x5C, CHR ''r'']
      else if \<not> py_printable c
        then [CHR 0x5C, CHR ''x'', hex_digit (of_char c div 16), hex_digit (of_char c)]
      else [c])"

text \<open>
  \<^verbatim>\<open>repr\<close> of a string: single quotes, unless the string has a single quote and no
  double quote.
\<close>

definition py_repr_str :: "string \<Rightarrow> string" where
  "py_repr_str s =
     (let quote = (if CHR 0x27 \<in> set s \<and> CHR 0x22 \<notin> set s then CHR 0x22 else CHR 0x27)
      in quote # concat (map (py_escape_char quote) s) @ [quote])"

fun py_join :: "string \<Rightarrow> string list \<Rightarrow> string" where
  "py_join sep [] = []"
| "py_join sep [x] = x"
| "py_join sep (x # y # zs) = x @ sep @ py_join sep (y # zs)"

definition py_str_list :: "string list \<Rightarrow> string" where
  "py_str_list xs = ''['' @ py_join '', '' (map py_repr_str xs) @ '']''"

fun py_digits :: "nat \<Rightarrow> string" where
  "py_digits n =
     (if n < 10 then [hex_digit n] else py_digits (n div 10) @ [hex_digit (n mod 10)])"

declare py_digits.simps [simp del]

definition py_repr_int :: "int \<Rightarrow> string" where
  "py_repr_int i = (if i < 0 then CHR ''-'' # py_digits (nat (- i)) else py_digits (nat i))"

fun py_repr :: "pyval \<Rightarrow> string" where
  "py_repr PNone = ''None''"
| "py_repr (PInt i) = py_repr_int i"
| "py_repr (PStr s) = py_repr_str s"
| "py_repr (PList xs) = py_str_list xs"

text \<open>\<^verbatim>\<open>str\<close> of a tuple; a one-element tuple is printed with a trailing comma.\<close>

fun py_str_tuple :: "pyval list \<Rightarrow> string" where
  "py_str_tuple [x] = ''('' @ py_repr x @ '',)''"
| "py_str_tuple xs = ''('' @ py_join '', '' (map py_repr xs) @ '')''"

text \<open>The slice \<^verbatim>\<open>s[1:-1]\<close>: without the first and the last character.\<close>

definition slice_1_m1 :: "string \<Rightarrow> string" where
  "slice_1_m1 s = take (length s - 1 - 1) (drop 1 s)"

section \<open>\<^verbatim>\<open>filter_subdomain\<close>\<close>

text \<open>
  \<^verbatim>\<open>
  subdomains = []
  for data in data_list:
      if not data.get('ips'):
          subdomain = data.get('subdomain')
          subdomains.append(subdomain)
  return subdomains
  \<close>
\<close>

fun filter_subdomain_loop :: "pydict list \<Rightarrow> pyval list \<Rightarrow> pyval list" where
  "filter_subdomain_loop [] subdomains = subdomains"
| "filter_subdomain_loop (data # rest) subdomains =
     (if \<not> truthy (dict_get data ''ips'')
      then (let subdomain = dict_get data ''subdomain''
            in filter_subdomain_loop rest (subdomains @ [subdomain]))
      else filter_subdomain_loop rest subdomains)"

definition filter_subdomain :: "pydict list \<Rightarrow> pyval list" where
  "filter_subdomain data_list = filter_subdomain_loop data_list []"

section \<open>Exceptions and \<^verbatim>\<open>aiodns_query_a\<close>\<close>

text \<open>
  An exception object carries its \<^verbatim>\<open>args\<close> tuple. Every exception is an instance of
  \<^verbatim>\<open>BaseException\<close>; \<^verbatim>\<open>KeyboardInterrupt\<close>, \<^verbatim>\<open>SystemExit\<close> and
  \<^verbatim>\<open>asyncio.CancelledError\<close> are not instances of \<^verbatim>\<open>Exception\<close>.
\<close>

datatype pyexc = PyExc (derives_Exception: bool) (exc_args: "pyval list")

datatype exc_class = BaseException | Exception

fun isinstance_exc :: "pyexc \<Rightarrow> exc_class \<Rightarrow> bool" where
  "isinstance_exc e BaseException = True"
| "isinstance_exc e Exception = derives_Exception e"

text \<open>
  The second component of a query result: the triple \<^verbatim>\<open>(hostname, aliaslist, ipaddrlist)\<close>
  of \<^verbatim>\<open>socket.gethostbyname_ex\<close>, an exception object, or any other value.
\<close>

datatype answer =
    AnsTuple (ans_name: string) (ans_aliases: "string list") (ans_addrs: "string list")
  | AnsExc (ans_exc: pyexc)
  | AnsOther pyval

fun isinstance_tuple :: "answer \<Rightarrow> bool" where
  "isinstance_tuple (AnsTuple n al ad) = True"
| "isinstance_tuple a = False"

fun isinstance_Exception :: "answer \<Rightarrow> bool" where
  "isinstance_Exception (AnsExc e) = isinstance_exc e Exception"
| "isinstance_Exception a = False"

text \<open>
  The body of the \<^verbatim>\<open>try\<close> block (event loop, socket timeout, the lookup in the executor)
  is the external resolver: it returns the triple or raises.
\<close>

type_synonym resolver = "pyval \<Rightarrow> pyexc + (string \<times> string list \<times> string list)"

text \<open>
  \<^verbatim>\<open>
  try:
      ...
      answer = await loop.run_in_executor(None, socket.gethostbyname_ex, hostname)
  except BaseException as e:
      logger.log('TRACE', e.args)
      answer = e
  return hostname, answer
  \<close>
\<close>

definition aiodns_query_a :: "resolver \<Rightarrow> pyval \<Rightarrow> pyexc + (pyval \<times> answer)" where
  "aiodns_query_a gethostbyname_ex hostname =
     (case gethostbyname_ex hostname of
        Inr (name, aliases, addrs) \<Rightarrow> Inr (hostname, AnsTuple name aliases addrs)
      | Inl e \<Rightarrow>
          if isinstance_exc e BaseException then Inr (hostname, AnsExc e) else Inl e)"

section \<open>\<^verbatim>\<open>convert_results\<close>\<close>

record value_dict =
  ips :: pyval
  reason :: pyval
  valid :: pyval

type_synonym results_dict = "pyval \<rightharpoonup> value_dict"

text \<open>\<^verbatim>\<open>result_dict[hostname] = value_dict\<close>; an unhashable key raises \<^verbatim>\<open>TypeError\<close>.\<close>

definition dict_setitem :: "results_dict \<Rightarrow> pyval \<Rightarrow> value_dict \<Rightarrow> error + results_dict" where
  "dict_setitem result_dict hostname value_dict =
     (if hashable hostname then Inr (result_dict(hostname \<mapsto> value_dict)) else Inl TypeError)"

text \<open>
  \<^verbatim>\<open>
  for result in result_list:
      hostname, answer = result
      value_dict = {'ips': None, 'reason': None, 'valid': None}
      if isinstance(answer, tuple):
          value_dict['ips'] = str(answer[2])[1:-1]
          result_dict[hostname] = value_dict
      elif isinstance(answer, Exception):
          value_dict['reason'] = str(answer.args)
          value_dict['valid'] = 0
          result_dict[hostname] = value_dict
      else:
          value_dict['valid'] = 0
          result_dict[hostname] = value_dict
  return result_dict
  \<close>
\<close>

definition convert_body :: "pyval \<times> answer \<Rightarrow> results_dict \<Rightarrow> error + results_dict" where
  "convert_body result result_dict =
     (let (hostname, answer) = result;
          value_dict = \<lparr>ips = PNone, reason = PNone, valid = PNone\<rparr>
      in if isinstance_tuple answer then
           (let value_dict = value_dict\<lparr>ips := PStr (slice_1_m1 (py_str_list (ans_addrs answer)))\<rparr>
            in dict_setitem result_dict hostname value_dict)
         else if isinstance_Exception answer then
           (let value_dict = value_dict\<lparr>reason := PStr (py_str_tuple (exc_args (ans_exc answer)))\<rparr>;
                value_dict = value_dict\<lparr>valid := PInt 0\<rparr>
            in dict_setitem result_dict hostname value_dict)
         else
           (let value_dict = value_dict\<lparr>valid := PInt 0\<rparr>
            in dict_setitem result_dict hostname value_dict))"

fun convert_loop :: "(pyval \<times> answer) list \<Rightarrow> results_dict \<Rightarrow> error + results_dict" where
  "convert_loop [] result_dict = Inr result_dict"
| "convert_loop (result # rest) result_dict =
     (case convert_body result result_dict of
        Inl e \<Rightarrow> Inl e
      | Inr result_dict' \<Rightarrow> convert_loop rest result_dict')"

definition convert_results :: "(pyval \<times> answer) list \<Rightarrow> error + results_dict" where
  "convert_results result_list = convert_loop result_list Map.empty"

section \<open>\<^verbatim>\<open>update_data\<close>\<close>

text \<open>\<^verbatim>\<open>results_dict.get(subdomain)\<close>: hashing an unhashable key raises \<^verbatim>\<open>TypeError\<close>.\<close>

definition results_get :: "results_dict \<Rightarrow> pyval \<Rightarrow> error + value_dict option" where
  "results_get results_dict subdomain =
     (if hashable subdomain then Inr (results_dict subdomain) else Inl TypeError)"

text \<open>
  \<^verbatim>\<open>data.update(value_dict)\<close>: the three items of the value dictionary are stored into
  the record; \<^verbatim>\<open>data.update(None)\<close> raises \<^verbatim>\<open>TypeError\<close> (\<^verbatim>\<open>None\<close> is not iterable).
\<close>

definition dict_update :: "pydict \<Rightarrow> value_dict option \<Rightarrow> error + pydict" where
  "dict_update data value_dict =
     (case value_dict of
        None \<Rightarrow> Inl TypeError
      | Some v \<Rightarrow> Inr (data(''ips'' \<mapsto> ips v, ''reason'' \<mapsto> reason v, ''valid'' \<mapsto> valid v)))"

text \<open>
  The list is updated in place, so a caller that catches the exception sees the records
  already updated: both outcomes carry the list.
\<close>

datatype update_result = Return "pydict list" | Raise error "pydict list"

fun data_list_of :: "update_result \<Rightarrow> pydict list" where
  "data_list_of (Return data_list) = data_list"
| "data_list_of (Raise e data_list) = data_list"

text \<open>
  \<^verbatim>\<open>
  for index, data in enumerate(data_list):
      if not data.get('ips'):
          subdomain = data.get('subdomain')
          value_dict = results_dict.get(subdomain)
          data.update(value_dict)
          data_list[index] = data
  return data_list
  \<close>
  The record dictionaries hold immutable values and each is rebuilt from its own fields,
  so a list position is modelled by the value of its record.
\<close>

definition update_body :: "results_dict \<Rightarrow> nat \<Rightarrow> pydict list \<Rightarrow> error + pydict list" where
  "update_body results_dict index data_list =
     (let data = data_list ! index
      in if \<not> truthy (dict_get data ''ips'') then
           (let subdomain = dict_get data ''subdomain''
            in case results_get results_dict subdomain of
                 Inl e \<Rightarrow> Inl e
               | Inr value_dict \<Rightarrow>
                   (case dict_update data value_dict of
                      Inl e \<Rightarrow> Inl e
                    | Inr data' \<Rightarrow> Inr (data_list[index := data'])))
         else Inr data_list)"

fun update_loop :: "results_dict \<Rightarrow> nat list \<Rightarrow> pydict list \<Rightarrow> update_result" where
  "update_loop results_dict [] data_list = Return data_list"
| "update_loop results_dict (index # rest) data_list =
     (case update_body results_dict index data_list of
        Inl e \<Rightarrow> Raise e data_list
      | Inr data_list' \<Rightarrow> update_loop results_dict rest data_list')"

definition update_data :: "pydict list \<Rightarrow> results_dict \<Rightarrow> update_result" where
  "update_data data_list results_dict =
     update_loop results_dict [0..<length data_list] data_list"

section \<open>Progress queue, monitor loop and \<^verbatim>\<open>aio_resolve\<close>\<close>

text \<open>
  What the scheduler does to its environment is recorded in a log; the progress queue is
  the number of items put into it.
\<close>

datatype event =
    ManagerStarted
  | MonitorStarted nat
  | PoolOpened int int
  | PoolClosed

record world =
  events :: "event list"
  pr_queue :: nat

definition emit :: "event \<Rightarrow> world \<Rightarrow> world" where
  "emit ev w = w\<lparr>events := events w @ [ev]\<rparr>"

text \<open>
  \<^verbatim>\<open>
  while True:
      done = pr_queue.qsize()
      bar.n = done
      bar.update()
      if done == total:
          break
  \<close>
  The loop runs in its own thread while the workers fill the queue: \<open>qsize k\<close> is the size
  it reads at its \<open>k\<close>-th poll and \<open>total_n\<close> is the parameter \<^verbatim>\<open>total\<close>. The result is
  the number of polls made; a loop that never reads \<^verbatim>\<open>total\<close> does not return.
\<close>

partial_function (option) resolve_progress_loop :: "(nat \<Rightarrow> nat) \<Rightarrow> nat \<Rightarrow> nat \<Rightarrow> nat option" where
  "resolve_progress_loop qsize total_n polls =
     (let done = qsize polls
      in if done = total_n then Some (Suc polls)
         else resolve_progress_loop qsize total_n (Suc polls))"

definition resolve_progress :: "(nat \<Rightarrow> nat) \<Rightarrow> nat \<Rightarrow> nat option" where
  "resolve_progress qsize total_n = resolve_progress_loop qsize total_n 0"

text \<open>
  \<^verbatim>\<open>
  results = await aiodns_query_a(hostname)
  pr_queue.put(1)
  return results
  \<close>
\<close>

definition aio_query :: "resolver \<Rightarrow> pyval \<Rightarrow> world \<Rightarrow> (pyexc + (pyval \<times> answer)) \<times> world" where
  "aio_query gethostbyname_ex hostname w =
     (case aiodns_query_a gethostbyname_ex hostname of
        Inl e \<Rightarrow> (Inl e, w)
      | Inr results \<Rightarrow> (Inr results, w\<lparr>pr_queue := pr_queue w + 1\<rparr>))"

text \<open>
  \<^verbatim>\<open>pool.map(func, iterable)\<close> of the worker pool: \<^verbatim>\<open>func\<close> is called once for each item
  and the results are returned in the order of the items; an exception raised by a call is
  raised to the caller. The interleaving of the calls over processes and coroutines is not
  part of the model: the calls share only the progress queue, which counts them.
\<close>

fun pool_map ::
    "(pyval \<Rightarrow> world \<Rightarrow> (pyexc + 'r) \<times> world) \<Rightarrow> pyval list \<Rightarrow> world
      \<Rightarrow> (pyexc + 'r list) \<times> world" where
  "pool_map func [] w = (Inr [], w)"
| "pool_map func (item # rest) w =
     (case func item w of
        (Inl e, w') \<Rightarrow> (Inl e, w')
      | (Inr r, w') \<Rightarrow>
          (case pool_map func rest w' of
             (Inl e, w'') \<Rightarrow> (Inl e, w'')
           | (Inr rs, w'') \<Rightarrow> (Inr (r # rs), w'')))"

text \<open>
  \<^verbatim>\<open>
  m = Manager()
  pr_queue = m.Queue()
  loop = asyncio.get_event_loop()
  loop.run_in_executor(None, resolve_progress, pr_queue, len(subdomain_list))
  wrapped_query = functools.partial(aio_query, pr_queue)
  async with aiomp.Pool(processes=process_num,
                        childconcurrency=coroutine_num) as pool:
      results = await pool.map(wrapped_query, subdomain_list)
      return results
  \<close>
\<close>

definition aio_resolve ::
    "resolver \<Rightarrow> pyval list \<Rightarrow> int \<Rightarrow> int \<Rightarrow> world
      \<Rightarrow> (pyexc + (pyval \<times> answer) list) \<times> world" where
  "aio_resolve gethostbyname_ex subdomain_list process_num coroutine_num w0 =
     (let w1 = (emit ManagerStarted w0)\<lparr>pr_queue := 0\<rparr>;
          w2 = emit (MonitorStarted (length subdomain_list)) w1;
          w3 = emit (PoolOpened process_num coroutine_num) w2;
          (results, w4) = pool_map (aio_query gethostbyname_ex) subdomain_list w3
      in (results, emit PoolClosed w4))"

section \<open>Notions used to state the properties\<close>

text \<open>A record is pending when its \<^verbatim>\<open>ips\<close> value is falsy, which is the test both loops make.\<close>

definition pending :: "pydict \<Rightarrow> bool" where
  "pending data = (\<not> truthy (dict_get data ''ips''))"

definition name_of :: "pydict \<Rightarrow> pyval" where
  "name_of data = dict_get data ''subdomain''"

text \<open>The lookup of a record's name succeeds: the name is hashable and a key of the map.\<close>

definition found :: "results_dict \<Rightarrow> pydict \<Rightarrow> bool" where
  "found results_dict data =
     (hashable (name_of data) \<and> results_dict (name_of data) \<noteq> None)"

text \<open>A record with the three fields of a value dictionary copied in.\<close>

definition filled :: "pydict \<Rightarrow> value_dict \<Rightarrow> pydict" where
  "filled data v = data(''ips'' \<mapsto> ips v, ''reason'' \<mapsto> reason v, ''valid'' \<mapsto> valid v)"

definition merged :: "results_dict \<Rightarrow> pydict \<Rightarrow> pydict" where
  "merged results_dict data =
     (if pending data
      then (case results_dict (name_of data) of None \<Rightarrow> data | Some v \<Rightarrow> filled data v)
      else data)"

text \<open>The value dictionary that the conversion builds for an answer.\<close>

definition entry_of :: "answer \<Rightarrow> value_dict" where
  "entry_of a =
     (case a of
        AnsTuple n al ad \<Rightarrow>
          \<lparr>ips = PStr (slice_1_m1 (py_str_list ad)), reason = PNone, valid = PNone\<rparr>
      | AnsExc e \<Rightarrow>
          if derives_Exception e
          then \<lparr>ips = PNone, reason = PStr (py_str_tuple (exc_args e)), valid = PInt 0\<rparr>
          else \<lparr>ips = PNone, reason = PNone, valid = PInt 0\<rparr>
      | AnsOther v \<Rightarrow> \<lparr>ips = PNone, reason = PNone, valid = PInt 0\<rparr>)"

text \<open>
  The lookup that \<^verbatim>\<open>update_data\<close> makes for a record fails: the record is pending and its
  name is no key of the map.
\<close>

definition blocked :: "results_dict \<Rightarrow> pydict \<Rightarrow> bool" where
  "blocked results_dict data = (pending data \<and> \<not> found results_dict data)"

text \<open>
  The merge written by recursion on the list of records: it stops at the first record whose
  lookup fails and otherwise replaces each record by its merged value.
\<close>

fun prepend :: "pydict list \<Rightarrow> update_result \<Rightarrow> update_result" where
  "prepend pre (Return l) = Return (pre @ l)"
| "prepend pre (Raise e l) = Raise e (pre @ l)"

fun merge_all :: "results_dict \<Rightarrow> pydict list \<Rightarrow> update_result" where
  "merge_all rd [] = Return []"
| "merge_all rd (d # ds) =
     (if blocked rd d then Raise TypeError (d # ds)
      else prepend [merged rd d] (merge_all rd ds))"

text \<open>The answer that \<^verbatim>\<open>aiodns_query_a\<close> pairs with a hostname.\<close>

definition answer_of :: "resolver \<Rightarrow> pyval \<Rightarrow> answer" where
  "answer_of gethostbyname_ex hostname =
     (case gethostbyname_ex hostname of
        Inr (name, aliases, addrs) \<Rightarrow> AnsTuple name aliases addrs
      | Inl e \<Rightarrow> AnsExc e)"

lemmas eval_defs =
  pending_def name_of_def dict_get_def blocked_def found_def merged_def filled_def

section \<open>Properties of \<^verbatim>\<open>filter_subdomain\<close>\<close>

lemma filter_subdomain_loop_acc:
  "filter_subdomain_loop ds acc = acc @ map name_of (filter pending ds)"
  by (induction ds arbitrary: acc) (simp_all add: pending_def name_of_def)

lemma filter_subdomain_eq:
  "filter_subdomain ds = map name_of (filter pending ds)"
  by (simp add: filter_subdomain_def filter_subdomain_loop_acc)

lemma filter_subdomain_mem:
  "x \<in> set (filter_subdomain ds) \<longleftrightarrow> (\<exists>d \<in> set ds. pending d \<and> name_of d = x)"
  by (auto simp: filter_subdomain_eq)

lemma name_of_inj_on:
  "distinct (map name_of ds) \<Longrightarrow> d \<in> set ds \<Longrightarrow> d' \<in> set ds \<Longrightarrow> name_of d' = name_of d
   \<Longrightarrow> d' = d"
  by (meson distinct_map inj_onD)

text \<open>
  Claim C5 says that \<^verbatim>\<open>filter_subdomain\<close> never returns the name of a record whose
  \<^verbatim>\<open>ips\<close> field is populated. The function looks at each record on its own and does not
  compare names: when a populated record and a pending record have the same name, that
  name is returned.
\<close>

theorem filter_subdomain_homonym_counterexample:
  "filter_subdomain
     [ [''subdomain'' \<mapsto> PStr ''p.example.com'', ''ips'' \<mapsto> PStr ''1.2.3.4''],
       [''subdomain'' \<mapsto> PStr ''p.example.com''] ]
   = [PStr ''p.example.com'']
   \<and> truthy (dict_get [''subdomain'' \<mapsto> PStr ''p.example.com'', ''ips'' \<mapsto> PStr ''1.2.3.4'']
         ''ips'')
   \<and> dict_get [''subdomain'' \<mapsto> PStr ''p.example.com'', ''ips'' \<mapsto> PStr ''1.2.3.4'']
         ''subdomain'' = PStr ''p.example.com''"
  by (simp add: filter_subdomain_def dict_get_def)

text \<open>
  Claim C5, amended. For every record list, \<^verbatim>\<open>filter_subdomain\<close> returns, in the original
  order, exactly the names of the records whose \<^verbatim>\<open>ips\<close> field is not populated (a falsy
  value, which is the test of the source). A value is returned if and only if some pending
  record bears it as its name: the name of a populated record is returned exactly when a
  pending record of the list has the same name, and never when the names of the list are
  distinct.
\<close>

theorem filter_subdomain_pending_names:
  "filter_subdomain ds = map name_of (filter pending ds)
   \<and> (\<forall>x. x \<in> set (filter_subdomain ds) \<longleftrightarrow> (\<exists>d \<in> set ds. pending d \<and> name_of d = x))
   \<and> (\<forall>d \<in> set ds. \<not> pending d \<longrightarrow>
         (name_of d \<in> set (filter_subdomain ds)
            \<longleftrightarrow> (\<exists>d' \<in> set ds. pending d' \<and> name_of d' = name_of d)))
   \<and> (distinct (map name_of ds) \<longrightarrow>
         (\<forall>d \<in> set ds. \<not> pending d \<longrightarrow> name_of d \<notin> set (filter_subdomain ds)))"
proof -
  have eq: "filter_subdomain ds = map name_of (filter pending ds)"
    by (rule filter_subdomain_eq)
  have mem: "x \<in> set (filter_subdomain ds) \<longleftrightarrow> (\<exists>d \<in> set ds. pending d \<and> name_of d = x)" for x
    by (auto simp: eq)
  have dist: "name_of d \<notin> set (filter_subdomain ds)"
    if "distinct (map name_of ds)" "d \<in> set ds" "\<not> pending d" for d
  proof
    assume "name_of d \<in> set (filter_subdomain ds)"
    then obtain d' where d': "d' \<in> set ds" "pending d'" "name_of d' = name_of d"
      using mem by blast
    then have "d' = d"
      using that(1,2) by (intro name_of_inj_on [of ds])
    then show False
      using d'(2) that(3) by simp
  qed
  show ?thesis
    using eq mem dist by blast
qed

theorem filter_subdomain_pending_names_witness:
  "filter_subdomain
     [ [''subdomain'' \<mapsto> PStr ''a.example.com'', ''ips'' \<mapsto> PStr ''1.2.3.4''],
       [''subdomain'' \<mapsto> PStr ''b.example.com''],
       [''subdomain'' \<mapsto> PStr ''c.example.com'', ''ips'' \<mapsto> PStr ''''] ]
   = [PStr ''b.example.com'', PStr ''c.example.com'']
   \<and> distinct [PStr ''a.example.com'', PStr ''b.example.com'', PStr ''c.example.com'']
   \<and> PStr ''a.example.com'' \<notin> set (filter_subdomain
     [ [''subdomain'' \<mapsto> PStr ''a.example.com'', ''ips'' \<mapsto> PStr ''1.2.3.4''],
       [''subdomain'' \<mapsto> PStr ''b.example.com''],
       [''subdomain'' \<mapsto> PStr ''c.example.com'', ''ips'' \<mapsto> PStr ''''] ])"
  using filter_subdomain_pending_names [of
     "[ [''subdomain'' \<mapsto> PStr ''a.example.com'', ''ips'' \<mapsto> PStr ''1.2.3.4''],
        [''subdomain'' \<mapsto> PStr ''b.example.com''],
        [''subdomain'' \<mapsto> PStr ''c.example.com'', ''ips'' \<mapsto> PStr ''''] ]"]
  by (simp add: pending_def name_of_def dict_get_def)

section \<open>Properties of \<^verbatim>\<open>update_data\<close>\<close>

subsection \<open>The loop over the indices is the recursion over the records\<close>

lemma prepend_prepend: "prepend xs (prepend ys r) = prepend (xs @ ys) r"
  by (cases r) simp_all

lemma prepend_Nil: "prepend [] r = r"
  by (cases r) simp_all

lemma data_list_of_prepend: "data_list_of (prepend xs r) = xs @ data_list_of r"
  by (cases r) simp_all

lemma update_body_blocked:
  assumes "length pre = k" "blocked rd d"
  shows "update_body rd k (pre @ d # ds) = Inl TypeError"
  using assms
  by (auto simp: update_body_def blocked_def pending_def found_def name_of_def results_get_def
      dict_update_def Let_def split: option.splits)

lemma update_body_ok:
  assumes "length pre = k" "\<not> blocked rd d"
  shows "update_body rd k (pre @ d # ds) = Inr (pre @ merged rd d # ds)"
  using assms
  by (auto simp: update_body_def blocked_def pending_def found_def name_of_def results_get_def
      dict_update_def merged_def filled_def Let_def split: option.splits)

lemma update_loop_eq:
  "length pre = k \<Longrightarrow>
   update_loop rd [k..<k + length ds] (pre @ ds) = prepend pre (merge_all rd ds)"
proof (induction ds arbitrary: pre k)
  case Nil
  then show ?case by simp
next
  case (Cons d ds)
  have upt: "[k..<k + length (d # ds)] = k # [Suc k..<Suc k + length ds]"
    by (subst upt_conv_Cons) simp_all
  have step: "update_loop rd [k..<k + length (d # ds)] (pre @ d # ds) =
     (case update_body rd k (pre @ d # ds) of
        Inl e \<Rightarrow> Raise e (pre @ d # ds)
      | Inr dl \<Rightarrow> update_loop rd [Suc k..<Suc k + length ds] dl)"
    by (simp only: upt update_loop.simps)
  show ?case
  proof (cases "blocked rd d")
    case True
    then have "update_body rd k (pre @ d # ds) = Inl TypeError"
      using Cons.prems by (intro update_body_blocked) simp_all
    then show ?thesis
      using True unfolding step by simp
  next
    case False
    have body: "update_body rd k (pre @ d # ds) = Inr (pre @ merged rd d # ds)"
      using Cons.prems False by (intro update_body_ok) simp_all
    have "update_loop rd [Suc k..<Suc k + length ds] ((pre @ [merged rd d]) @ ds)
          = prepend (pre @ [merged rd d]) (merge_all rd ds)"
      using Cons.prems by (intro Cons.IH) simp
    then show ?thesis
      using False unfolding step body by (simp add: prepend_prepend del: upt.simps)
  qed
qed

lemma update_data_eq: "update_data ds rd = merge_all rd ds"
  using update_loop_eq [of "[]" 0 rd ds] by (simp add: update_data_def prepend_Nil)

subsection \<open>Facts about the recursion\<close>

lemma merge_all_ok:
  "(\<forall>d \<in> set ds. \<not> blocked rd d) \<Longrightarrow> merge_all rd ds = Return (map (merged rd) ds)"
  by (induction ds) auto

lemma merge_all_append:
  "merge_all rd (xs @ ys) =
     (case merge_all rd xs of
        Return l \<Rightarrow> prepend l (merge_all rd ys)
      | Raise e l \<Rightarrow> Raise e (l @ ys))"
  by (induction xs) (auto split: update_result.splits simp: prepend_prepend prepend_Nil)

lemma merge_all_miss:
  assumes "i < length ds" "blocked rd (ds ! i)" "\<forall>j<i. \<not> blocked rd (ds ! j)"
  shows "merge_all rd ds = Raise TypeError (map (merged rd) (take i ds) @ drop i ds)"
proof -
  have ds: "ds = take i ds @ ds ! i # drop (Suc i) ds"
    using assms(1) by (simp add: id_take_nth_drop)
  have pre: "merge_all rd (take i ds) = Return (map (merged rd) (take i ds))"
    using assms(1,3) by (intro merge_all_ok) (auto simp: in_set_conv_nth)
  have "merge_all rd (take i ds @ ds ! i # drop (Suc i) ds)
        = Raise TypeError (map (merged rd) (take i ds) @ ds ! i # drop (Suc i) ds)"
    using assms(2) by (simp add: merge_all_append pre)
  then show ?thesis
    using ds assms(1) by (metis Cons_nth_drop_Suc)
qed

lemma merged_idem: "\<not> blocked rd d \<Longrightarrow> merged rd (merged rd d) = merged rd d"
  by (auto simp: blocked_def merged_def pending_def found_def name_of_def filled_def dict_get_def
      split: option.splits)

lemma merged_not_blocked: "\<not> blocked rd d \<Longrightarrow> \<not> blocked rd (merged rd d)"
  by (auto simp: blocked_def merged_def pending_def found_def name_of_def filled_def dict_get_def
      split: option.splits)

lemma merge_all_idem: "merge_all rd (data_list_of (merge_all rd ds)) = merge_all rd ds"
proof (induction ds)
  case Nil
  then show ?case by simp
next
  case (Cons d ds)
  show ?case
  proof (cases "blocked rd d")
    case True
    then show ?thesis by simp
  next
    case False
    then show ?thesis
      using Cons.IH merged_idem [OF False] merged_not_blocked [OF False]
      by (simp add: data_list_of_prepend)
  qed
qed

lemma merge_all_nth:
  "i < length ds \<Longrightarrow> \<not> pending (ds ! i) \<Longrightarrow> data_list_of (merge_all rd ds) ! i = ds ! i"
proof (induction ds arbitrary: i)
  case Nil
  then show ?case by simp
next
  case (Cons d ds)
  show ?case
  proof (cases i)
    case 0
    then show ?thesis
      using Cons.prems by (simp add: data_list_of_prepend merged_def)
  next
    case (Suc j)
    then show ?thesis
      using Cons.prems Cons.IH [of j] by (simp add: data_list_of_prepend)
  qed
qed

lemma merge_all_prefix_nth:
  assumes "\<forall>x \<in> set pre. \<not> blocked rd x" "\<not> blocked rd d"
  shows "data_list_of (merge_all rd (pre @ d # post)) ! length pre = merged rd d"
  using assms
  by (simp add: merge_all_append merge_all_ok data_list_of_prepend nth_append)

subsection \<open>A lookup miss\<close>

text \<open>
  Claim C1 says that a pending record whose name is no key of the map is skipped without an
  error. It is not: \<^verbatim>\<open>results_dict.get\<close> returns \<^verbatim>\<open>None\<close> and \<^verbatim>\<open>data.update(None)\<close>
  raises \<^verbatim>\<open>TypeError\<close>. Here the first record misses, and the second, whose name is a
  key, is not updated either.
\<close>

theorem update_data_miss_counterexample:
  "update_data
     [ [''subdomain'' \<mapsto> PStr ''a.example.com''], [''subdomain'' \<mapsto> PStr ''b.example.com''] ]
     [PStr ''b.example.com'' \<mapsto> \<lparr>ips = PStr ''1.2.3.4'', reason = PNone, valid = PNone\<rparr>]
   = Raise TypeError
     [ [''subdomain'' \<mapsto> PStr ''a.example.com''], [''subdomain'' \<mapsto> PStr ''b.example.com''] ]"
  by (simp add: update_data_def update_body_def dict_get_def results_get_def dict_update_def
      upt_conv_Cons)

text \<open>
  Claim C1, amended. When the lookup succeeds for every pending record, \<^verbatim>\<open>update_data\<close>
  returns the list with every pending record filled from its entry and every other record
  as it was. At the first pending record whose lookup misses it raises \<^verbatim>\<open>TypeError\<close>:
  that record and the records after it are left as they were, the records before it have
  been updated.
\<close>

theorem update_data_lookup_miss:
  "((\<forall>d \<in> set ds. \<not> blocked rd d) \<longrightarrow> update_data ds rd = Return (map (merged rd) ds))
   \<and> (\<forall>i < length ds. blocked rd (ds ! i) \<and> (\<forall>j < i. \<not> blocked rd (ds ! j)) \<longrightarrow>
         update_data ds rd = Raise TypeError (map (merged rd) (take i ds) @ drop i ds))"
  by (simp add: update_data_eq merge_all_ok merge_all_miss)

theorem update_data_lookup_miss_witness:
  "update_data [ [''subdomain'' \<mapsto> PStr ''a.example.com''] ]
     [PStr ''a.example.com'' \<mapsto> \<lparr>ips = PStr ''1.2.3.4'', reason = PNone, valid = PNone\<rparr>]
   = Return [ [''subdomain'' \<mapsto> PStr ''a.example.com'', ''ips'' \<mapsto> PStr ''1.2.3.4'',
               ''reason'' \<mapsto> PNone, ''valid'' \<mapsto> PNone] ]
   \<and> update_data
     [ [''subdomain'' \<mapsto> PStr ''a.example.com''], [''subdomain'' \<mapsto> PStr ''b.example.com''] ]
     [PStr ''a.example.com'' \<mapsto> \<lparr>ips = PStr ''1.2.3.4'', reason = PNone, valid = PNone\<rparr>]
   = Raise TypeError
     [ [''subdomain'' \<mapsto> PStr ''a.example.com'', ''ips'' \<mapsto> PStr ''1.2.3.4'',
        ''reason'' \<mapsto> PNone, ''valid'' \<mapsto> PNone],
       [''subdomain'' \<mapsto> PStr ''b.example.com''] ]"
  using
    update_data_lookup_miss [THEN conjunct1, of
      "[ [''subdomain'' \<mapsto> PStr ''a.example.com''] ]"
      "[PStr ''a.example.com'' \<mapsto> \<lparr>ips = PStr ''1.2.3.4'', reason = PNone, valid = PNone\<rparr>]"]
    update_data_lookup_miss [THEN conjunct2, rule_format, of 1
      "[ [''subdomain'' \<mapsto> PStr ''a.example.com''], [''subdomain'' \<mapsto> PStr ''b.example.com''] ]"
      "[PStr ''a.example.com'' \<mapsto> \<lparr>ips = PStr ''1.2.3.4'', reason = PNone, valid = PNone\<rparr>]"]
  by (simp add: eval_defs)

subsection \<open>Idempotence\<close>

text \<open>
  Claim C6. Merging the same map into the list that a merge has left produces that list
  again, with the same outcome. The entries of the map are value dictionaries, with the keys
  \<^verbatim>\<open>ips\<close>, \<^verbatim>\<open>reason\<close> and \<^verbatim>\<open>valid\<close>, so a merge does not change the name of a record. The
  equation covers a merge that returns and one that raises.
\<close>

theorem update_data_idempotent:
  "update_data (data_list_of (update_data ds rd)) rd = update_data ds rd"
  by (simp add: update_data_eq merge_all_idem)

theorem update_data_idempotent_witness:
  "update_data
     [ [''subdomain'' \<mapsto> PStr ''a.example.com''], [''subdomain'' \<mapsto> PStr ''b.example.com''] ]
     [PStr ''a.example.com'' \<mapsto> \<lparr>ips = PStr ''1.2.3.4'', reason = PNone, valid = PNone\<rparr>,
      PStr ''b.example.com'' \<mapsto> \<lparr>ips = PNone, reason = PStr ''timeout'', valid = PInt 0\<rparr>]
   = Return
     [ [''subdomain'' \<mapsto> PStr ''a.example.com'', ''ips'' \<mapsto> PStr ''1.2.3.4'',
        ''reason'' \<mapsto> PNone, ''valid'' \<mapsto> PNone],
       [''subdomain'' \<mapsto> PStr ''b.example.com'', ''ips'' \<mapsto> PNone,
        ''reason'' \<mapsto> PStr ''timeout'', ''valid'' \<mapsto> PInt 0] ]
   \<and> update_data
     [ [''subdomain'' \<mapsto> PStr ''a.example.com'', ''ips'' \<mapsto> PStr ''1.2.3.4'',
        ''reason'' \<mapsto> PNone, ''valid'' \<mapsto> PNone],
       [''subdomain'' \<mapsto> PStr ''b.example.com'', ''ips'' \<mapsto> PNone,
        ''reason'' \<mapsto> PStr ''timeout'', ''valid'' \<mapsto> PInt 0] ]
     [PStr ''a.example.com'' \<mapsto> \<lparr>ips = PStr ''1.2.3.4'', reason = PNone, valid = PNone\<rparr>,
      PStr ''b.example.com'' \<mapsto> \<lparr>ips = PNone, reason = PStr ''timeout'', valid = PInt 0\<rparr>]
   = Return
     [ [''subdomain'' \<mapsto> PStr ''a.example.com'', ''ips'' \<mapsto> PStr ''1.2.3.4'',
        ''reason'' \<mapsto> PNone, ''valid'' \<mapsto> PNone],
       [''subdomain'' \<mapsto> PStr ''b.example.com'', ''ips'' \<mapsto> PNone,
        ''reason'' \<mapsto> PStr ''timeout'', ''valid'' \<mapsto> PInt 0] ]"
proof -
  have first: "update_data
     [ [''subdomain'' \<mapsto> PStr ''a.example.com''], [''subdomain'' \<mapsto> PStr ''b.example.com''] ]
     [PStr ''a.example.com'' \<mapsto> \<lparr>ips = PStr ''1.2.3.4'', reason = PNone, valid = PNone\<rparr>,
      PStr ''b.example.com'' \<mapsto> \<lparr>ips = PNone, reason = PStr ''timeout'', valid = PInt 0\<rparr>]
   = Return
     [ [''subdomain'' \<mapsto> PStr ''a.example.com'', ''ips'' \<mapsto> PStr ''1.2.3.4'',
        ''reason'' \<mapsto> PNone, ''valid'' \<mapsto> PNone],
       [''subdomain'' \<mapsto> PStr ''b.example.com'', ''ips'' \<mapsto> PNone,
        ''reason'' \<mapsto> PStr ''timeout'', ''valid'' \<mapsto> PInt 0] ]"
    by (simp add: update_data_def update_body_def dict_get_def results_get_def dict_update_def
        upt_conv_Cons)
  show ?thesis
    using update_data_idempotent [of
     "[ [''subdomain'' \<mapsto> PStr ''a.example.com''], [''subdomain'' \<mapsto> PStr ''b.example.com''] ]"
     "[PStr ''a.example.com'' \<mapsto> \<lparr>ips = PStr ''1.2.3.4'', reason = PNone, valid = PNone\<rparr>,
      PStr ''b.example.com'' \<mapsto> \<lparr>ips = PNone, reason = PStr ''timeout'', valid = PInt 0\<rparr>]"]
    unfolding first by simp
qed

subsection \<open>Records that are populated, records that are not\<close>

text \<open>
  Claim C7 says that the name of a populated record is excluded from the result of
  \<^verbatim>\<open>filter_subdomain\<close>. It is in the result when a pending record of the list has the same
  name, which is also how the name comes to be a key of the map that is merged.
\<close>

theorem populated_record_homonym_counterexample:
  "truthy (dict_get [''subdomain'' \<mapsto> PStr ''p.example.com'', ''ips'' \<mapsto> PList [''9.9.9.9''] ]
      ''ips'')
   \<and> dict_get [''subdomain'' \<mapsto> PStr ''p.example.com'', ''ips'' \<mapsto> PList [''9.9.9.9''] ]
      ''subdomain'' = PStr ''p.example.com''
   \<and> PStr ''p.example.com'' \<in> set (filter_subdomain
     [ [''subdomain'' \<mapsto> PStr ''p.example.com'', ''ips'' \<mapsto> PList [''9.9.9.9''] ],
       [''subdomain'' \<mapsto> PStr ''p.example.com''] ])"
  by (simp add: filter_subdomain_def dict_get_def)

text \<open>
  Claim C7, amended. A record whose \<^verbatim>\<open>ips\<close> field is populated (truthy) adds nothing to
  the result of \<^verbatim>\<open>filter_subdomain\<close>: its name is in the result exactly when another
  record of the list, a pending one, has the same name. After \<^verbatim>\<open>update_data\<close> the record
  is what it was, whatever the map holds under its name and whether the merge returns or
  raises.
\<close>

theorem populated_record_untouched:
  assumes "truthy (dict_get d ''ips'')"
  shows "filter_subdomain (pre @ d # post) = filter_subdomain pre @ filter_subdomain post
    \<and> (name_of d \<in> set (filter_subdomain (pre @ d # post))
         \<longleftrightarrow> (\<exists>d' \<in> set (pre @ post). pending d' \<and> name_of d' = name_of d))
    \<and> data_list_of (update_data (pre @ d # post) rd) ! length pre = d"
proof -
  have np: "\<not> pending d"
    using assms by (simp add: pending_def)
  have sel: "filter_subdomain (pre @ d # post) = filter_subdomain pre @ filter_subdomain post"
    using np by (simp add: filter_subdomain_eq)
  have mem: "name_of d \<in> set (filter_subdomain (pre @ d # post))
         \<longleftrightarrow> (\<exists>d' \<in> set (pre @ post). pending d' \<and> name_of d' = name_of d)"
    unfolding filter_subdomain_mem using np by auto
  have "data_list_of (merge_all rd (pre @ d # post)) ! length pre = (pre @ d # post) ! length pre"
    using np by (intro merge_all_nth) simp_all
  then have same: "data_list_of (update_data (pre @ d # post) rd) ! length pre = d"
    by (simp add: update_data_eq)
  show ?thesis
    using sel mem same by blast
qed

theorem populated_record_untouched_witness:
  "truthy (dict_get [''subdomain'' \<mapsto> PStr ''a.example.com'', ''ips'' \<mapsto> PList [''9.9.9.9''] ] ''ips'')
   \<and> filter_subdomain
     [ [''subdomain'' \<mapsto> PStr ''a.example.com'', ''ips'' \<mapsto> PList [''9.9.9.9''] ],
       [''subdomain'' \<mapsto> PStr ''b.example.com''] ]
     = [PStr ''b.example.com'']
   \<and> PStr ''a.example.com'' \<notin> set (filter_subdomain
     [ [''subdomain'' \<mapsto> PStr ''a.example.com'', ''ips'' \<mapsto> PList [''9.9.9.9''] ],
       [''subdomain'' \<mapsto> PStr ''b.example.com''] ])
   \<and> data_list_of (update_data
     [ [''subdomain'' \<mapsto> PStr ''a.example.com'', ''ips'' \<mapsto> PList [''9.9.9.9''] ],
       [''subdomain'' \<mapsto> PStr ''b.example.com''] ]
     [PStr ''a.example.com'' \<mapsto> \<lparr>ips = PStr ''1.2.3.4'', reason = PNone, valid = PNone\<rparr>,
      PStr ''b.example.com'' \<mapsto> \<lparr>ips = PNone, reason = PStr ''timeout'', valid = PInt 0\<rparr>]) ! 0
     = [''subdomain'' \<mapsto> PStr ''a.example.com'', ''ips'' \<mapsto> PList [''9.9.9.9''] ]"
  using populated_record_untouched [of
     "[''subdomain'' \<mapsto> PStr ''a.example.com'', ''ips'' \<mapsto> PList [''9.9.9.9''] ]"
     "[]" "[ [''subdomain'' \<mapsto> PStr ''b.example.com''] ]"
     "[PStr ''a.example.com'' \<mapsto> \<lparr>ips = PStr ''1.2.3.4'', reason = PNone, valid = PNone\<rparr>,
      PStr ''b.example.com'' \<mapsto> \<lparr>ips = PNone, reason = PStr ''timeout'', valid = PInt 0\<rparr>]"]
  by (simp add: eval_defs filter_subdomain_def)

text \<open>
  Claim C10. A record whose \<^verbatim>\<open>ips\<close> value is \<^verbatim>\<open>None\<close> (or absent) or the empty string is
  pending for both loops: \<^verbatim>\<open>filter_subdomain\<close> returns its name at its place, and
  \<^verbatim>\<open>update_data\<close>, once it reaches the record, overwrites it with the entry stored under
  its name. The empty string is what the conversion stores for an address tuple with no
  address.
\<close>

theorem falsy_ips_still_pending:
  assumes "dict_get d ''ips'' = PNone \<or> dict_get d ''ips'' = PStr ''''"
  shows "filter_subdomain (pre @ d # post)
           = filter_subdomain pre @ name_of d # filter_subdomain post
    \<and> ((\<forall>x \<in> set pre. \<not> blocked rd x) \<and> hashable (name_of d) \<and> rd (name_of d) = Some v
         \<longrightarrow> data_list_of (update_data (pre @ d # post) rd) ! length pre = filled d v)
    \<and> (hashable h \<longrightarrow> convert_results [(h, AnsTuple n al [])]
          = Inr [h \<mapsto> \<lparr>ips = PStr '''', reason = PNone, valid = PNone\<rparr>])"
proof -
  have p: "pending d"
    using assms by (auto simp: pending_def)
  have "data_list_of (merge_all rd (pre @ d # post)) ! length pre = filled d v"
    if "\<forall>x \<in> set pre. \<not> blocked rd x" "hashable (name_of d)" "rd (name_of d) = Some v"
  proof -
    have "\<not> blocked rd d"
      using that by (simp add: blocked_def found_def)
    then show ?thesis
      using that p merge_all_prefix_nth [of pre rd d post] by (simp add: merged_def)
  qed
  moreover have "hashable h \<Longrightarrow> convert_results [(h, AnsTuple n al [])]
          = Inr [h \<mapsto> \<lparr>ips = PStr '''', reason = PNone, valid = PNone\<rparr>]"
    by (simp add: convert_results_def convert_body_def dict_setitem_def py_str_list_def
        slice_1_m1_def)
  ultimately show ?thesis
    using p by (auto simp: filter_subdomain_eq update_data_eq)
qed

theorem falsy_ips_still_pending_witness:
  "dict_get [''subdomain'' \<mapsto> PStr ''c.example.com'', ''ips'' \<mapsto> PStr ''''] ''ips'' = PStr ''''
   \<and> filter_subdomain [ [''subdomain'' \<mapsto> PStr ''c.example.com'', ''ips'' \<mapsto> PStr ''''] ]
       = [PStr ''c.example.com'']
   \<and> data_list_of (update_data
        [ [''subdomain'' \<mapsto> PStr ''c.example.com'', ''ips'' \<mapsto> PStr ''''] ]
        [PStr ''c.example.com'' \<mapsto> \<lparr>ips = PStr ''1.2.3.4'', reason = PNone, valid = PNone\<rparr>]) ! 0
       = [''subdomain'' \<mapsto> PStr ''c.example.com'', ''ips'' \<mapsto> PStr ''1.2.3.4'',
          ''reason'' \<mapsto> PNone, ''valid'' \<mapsto> PNone]
   \<and> convert_results [(PStr ''c.example.com'', AnsTuple ''c.example.com'' [] [])]
       = Inr [PStr ''c.example.com'' \<mapsto> \<lparr>ips = PStr '''', reason = PNone, valid = PNone\<rparr>]"
  using falsy_ips_still_pending [of
     "[''subdomain'' \<mapsto> PStr ''c.example.com'', ''ips'' \<mapsto> PStr '''']"
     "[]" "[]"
     "[PStr ''c.example.com'' \<mapsto> \<lparr>ips = PStr ''1.2.3.4'', reason = PNone, valid = PNone\<rparr>]"
     "\<lparr>ips = PStr ''1.2.3.4'', reason = PNone, valid = PNone\<rparr>"
     "PStr ''c.example.com''" "''c.example.com''" "[]"]
  by (simp add: eval_defs filter_subdomain_def)

section \<open>Properties of \<^verbatim>\<open>convert_results\<close>\<close>

lemma convert_body_eq:
  "convert_body (h, a) m = (if hashable h then Inr (m(h \<mapsto> entry_of a)) else Inl TypeError)"
  by (cases a) (simp_all add: convert_body_def dict_setitem_def entry_of_def)

lemma convert_loop_total:
  "\<forall>r \<in> set rs. hashable (fst r) \<Longrightarrow> \<exists>m'. convert_loop rs m = Inr m'"
proof (induction rs arbitrary: m)
  case Nil
  then show ?case by simp
next
  case (Cons r rs)
  obtain h a where r: "r = (h, a)" by (cases r)
  have "\<exists>m'. convert_loop rs (m(h \<mapsto> entry_of a)) = Inr m'"
    using Cons.prems by (intro Cons.IH) simp
  then show ?case
    using Cons.prems by (simp add: r convert_body_eq)
qed

lemma convert_loop_entries:
  "convert_loop rs m = Inr m' \<Longrightarrow> m' h = Some v \<Longrightarrow>
   m h = Some v \<or> (\<exists>a. (h, a) \<in> set rs \<and> v = entry_of a)"
proof (induction rs arbitrary: m)
  case Nil
  then show ?case by simp
next
  case (Cons r rs)
  obtain h' a' where r: "r = (h', a')" by (cases r)
  from Cons.prems(1) have hh: "hashable h'" and
    rest: "convert_loop rs (m(h' \<mapsto> entry_of a')) = Inr m'"
    by (auto simp: r convert_body_eq split: if_splits)
  from Cons.IH [OF rest Cons.prems(2)] show ?case
    by (auto simp: r split: if_splits)
qed

lemma convert_loop_append:
  "convert_loop (xs @ ys) m =
     (case convert_loop xs m of Inl e \<Rightarrow> Inl e | Inr m1 \<Rightarrow> convert_loop ys m1)"
  by (induction xs arbitrary: m) (auto split: sum.splits)

lemma convert_loop_other_key:
  "convert_loop rs m = Inr m' \<Longrightarrow> h \<notin> fst ` set rs \<Longrightarrow> m' h = m h"
proof (induction rs arbitrary: m)
  case Nil
  then show ?case by simp
next
  case (Cons r rs)
  obtain h' a' where r: "r = (h', a')" by (cases r)
  from Cons.prems(1) have rest: "convert_loop rs (m(h' \<mapsto> entry_of a')) = Inr m'"
    by (auto simp: r convert_body_eq split: if_splits)
  from Cons.IH [OF rest] Cons.prems(2) show ?case
    by (auto simp: r)
qed

lemma slice_py_str_list: "slice_1_m1 (py_str_list xs) = py_join '', '' (map py_repr_str xs)"
  by (simp add: slice_1_m1_def py_str_list_def)

lemma entry_of_shape:
  "(isinstance_tuple a \<longrightarrow>
      entry_of a = \<lparr>ips = PStr (slice_1_m1 (py_str_list (ans_addrs a))), reason = PNone,
                    valid = PNone\<rparr>)
   \<and> (\<not> isinstance_tuple a \<and> isinstance_Exception a \<longrightarrow>
      entry_of a = \<lparr>ips = PNone, reason = PStr (py_str_tuple (exc_args (ans_exc a))),
                    valid = PInt 0\<rparr>)
   \<and> (\<not> isinstance_tuple a \<and> \<not> isinstance_Exception a \<longrightarrow>
      entry_of a = \<lparr>ips = PNone, reason = PNone, valid = PInt 0\<rparr>)"
  by (cases a) (simp_all add: entry_of_def)

subsection \<open>Which of \<^verbatim>\<open>ips\<close> and \<^verbatim>\<open>reason\<close> an entry sets\<close>

text \<open>
  Claim C2 says that every entry sets exactly one of \<^verbatim>\<open>ips\<close> and \<^verbatim>\<open>reason\<close>. The
  \<^verbatim>\<open>else\<close> branch sets neither: a caught \<^verbatim>\<open>KeyboardInterrupt\<close>, which
  \<^verbatim>\<open>aiodns_query_a\<close> returns as the answer and which is no instance of \<^verbatim>\<open>Exception\<close>,
  gives an entry with \<^verbatim>\<open>valid = 0\<close> only.
\<close>

theorem convert_results_neither_counterexample:
  "convert_results [(PStr ''a.example.com'', AnsExc (PyExc False []))]
     = Inr [PStr ''a.example.com'' \<mapsto> \<lparr>ips = PNone, reason = PNone, valid = PInt 0\<rparr>]
   \<and> ips \<lparr>ips = PNone, reason = PNone, valid = PInt 0\<rparr> = PNone
   \<and> reason \<lparr>ips = PNone, reason = PNone, valid = PInt 0\<rparr> = PNone"
  by (simp add: convert_results_def convert_body_def dict_setitem_def)

text \<open>
  Claim C2, amended. For every outcome list with hashable hostnames the conversion returns
  a map, and no entry of it sets both \<^verbatim>\<open>ips\<close> and \<^verbatim>\<open>reason\<close>. Every entry is built from
  an outcome of the list for its hostname: from an address tuple it sets \<^verbatim>\<open>ips\<close> (a
  string) and nothing else; from an instance of \<^verbatim>\<open>Exception\<close> it sets \<^verbatim>\<open>reason\<close> (a
  string) and \<^verbatim>\<open>valid = 0\<close>; from any other answer it sets neither, only \<^verbatim>\<open>valid = 0\<close>.
\<close>

theorem convert_results_entry_shape:
  assumes "\<forall>r \<in> set rs. hashable (fst r)"
  shows "\<exists>m. convert_results rs = Inr m \<and>
    (\<forall>h v. m h = Some v \<longrightarrow>
       \<not> (ips v \<noteq> PNone \<and> reason v \<noteq> PNone)
       \<and> (\<exists>a. (h, a) \<in> set rs
            \<and> (isinstance_tuple a \<longrightarrow>
                 v = \<lparr>ips = PStr (slice_1_m1 (py_str_list (ans_addrs a))), reason = PNone,
                      valid = PNone\<rparr>)
            \<and> (\<not> isinstance_tuple a \<and> isinstance_Exception a \<longrightarrow>
                 v = \<lparr>ips = PNone, reason = PStr (py_str_tuple (exc_args (ans_exc a))),
                      valid = PInt 0\<rparr>)
            \<and> (\<not> isinstance_tuple a \<and> \<not> isinstance_Exception a \<longrightarrow>
                 v = \<lparr>ips = PNone, reason = PNone, valid = PInt 0\<rparr>)))"
proof -
  obtain m where m: "convert_loop rs Map.empty = Inr m"
    using convert_loop_total [OF assms] by blast
  have "\<not> (ips v \<noteq> PNone \<and> reason v \<noteq> PNone)
       \<and> (\<exists>a. (h, a) \<in> set rs
            \<and> (isinstance_tuple a \<longrightarrow>
                 v = \<lparr>ips = PStr (slice_1_m1 (py_str_list (ans_addrs a))), reason = PNone,
                      valid = PNone\<rparr>)
            \<and> (\<not> isinstance_tuple a \<and> isinstance_Exception a \<longrightarrow>
                 v = \<lparr>ips = PNone, reason = PStr (py_str_tuple (exc_args (ans_exc a))),
                      valid = PInt 0\<rparr>)
            \<and> (\<not> isinstance_tuple a \<and> \<not> isinstance_Exception a \<longrightarrow>
                 v = \<lparr>ips = PNone, reason = PNone, valid = PInt 0\<rparr>))"
    if mh: "m h = Some v" for h v
  proof -
    obtain a where a: "(h, a) \<in> set rs" "v = entry_of a"
      using convert_loop_entries [OF m mh] by auto
    have "\<not> (ips v \<noteq> PNone \<and> reason v \<noteq> PNone)"
      unfolding a(2) by (cases a) (simp_all add: entry_of_def)
    then show ?thesis
      using a entry_of_shape [of a] by blast
  qed
  then show ?thesis
    using m by (simp add: convert_results_def)
qed

theorem convert_results_entry_shape_witness:
  "hashable (PStr ''a.example.com'') \<and> hashable (PStr ''b.example.com'')
   \<and> hashable (PStr ''c.example.com'')
   \<and> (\<exists>m. convert_results
             [(PStr ''a.example.com'', AnsTuple ''a.example.com'' [] [''1.2.3.4'']),
              (PStr ''b.example.com'', AnsExc (PyExc True [PStr ''timed out''])),
              (PStr ''c.example.com'', AnsExc (PyExc False []))] = Inr m
         \<and> (\<forall>h v. m h = Some v \<longrightarrow> \<not> (ips v \<noteq> PNone \<and> reason v \<noteq> PNone)))"
proof -
  have h: "\<forall>r \<in> set [(PStr ''a.example.com'', AnsTuple ''a.example.com'' [] [''1.2.3.4'']),
               (PStr ''b.example.com'', AnsExc (PyExc True [PStr ''timed out''])),
               (PStr ''c.example.com'', AnsExc (PyExc False []))]. hashable (fst r)"
    by simp
  from convert_results_entry_shape [OF h] show ?thesis
    by simp blast
qed

subsection \<open>The entry of a successful outcome\<close>

text \<open>
  Claim C3 says that the \<^verbatim>\<open>ips\<close> field of a successful outcome equals its address list.
  The field holds \<^verbatim>\<open>str(answer[2])[1:-1]\<close>, a string: for the list of the one address
  1.2.3.4 it is that address within single quotes, nine characters, and not a list.
\<close>

theorem convert_results_ips_string_counterexample:
  "convert_results [(PStr ''a.example.com'', AnsTuple ''a.example.com'' [] [''1.2.3.4''])]
     = Inr [PStr ''a.example.com'' \<mapsto>
             \<lparr>ips = PStr [CHR 0x27, CHR ''1'', CHR ''.'', CHR ''2'', CHR ''.'', CHR ''3'', CHR ''.'',
                          CHR ''4'', CHR 0x27],
              reason = PNone, valid = PNone\<rparr>]
   \<and> PStr [CHR 0x27, CHR ''1'', CHR ''.'', CHR ''2'', CHR ''.'', CHR ''3'', CHR ''.'', CHR ''4'',
           CHR 0x27] \<noteq> PList [''1.2.3.4'']"
  by (simp add: convert_results_def convert_body_def dict_setitem_def py_str_list_def
      slice_1_m1_def py_repr_str_def py_escape_char_def py_printable_def Let_def)

text \<open>
  Claim C3, amended. For a successful outcome that no later outcome of the list overrides
  (the hostnames being hashable), the conversion produces a map whose entry for the
  hostname holds in \<^verbatim>\<open>ips\<close> the string made of the \<^verbatim>\<open>repr\<close> of each address, in order,
  joined by a comma and a space, with \<^verbatim>\<open>reason\<close> and \<^verbatim>\<open>valid\<close> left \<^verbatim>\<open>None\<close>.
\<close>

theorem convert_results_success_entry:
  assumes "\<forall>r \<in> set (pre @ (h, AnsTuple n al addrs) # post). hashable (fst r)"
    and "h \<notin> fst ` set post"
  shows "\<exists>m. convert_results (pre @ (h, AnsTuple n al addrs) # post) = Inr m
    \<and> m h = Some \<lparr>ips = PStr (py_join '', '' (map py_repr_str addrs)), reason = PNone,
                   valid = PNone\<rparr>"
proof -
  obtain m where m: "convert_loop (pre @ (h, AnsTuple n al addrs) # post) Map.empty = Inr m"
    using convert_loop_total [OF assms(1)] by blast
  then obtain m1 where m1: "convert_loop pre Map.empty = Inr m1"
    and rest: "convert_loop ((h, AnsTuple n al addrs) # post) m1 = Inr m"
    by (auto simp: convert_loop_append split: sum.splits)
  from rest have post: "convert_loop post (m1(h \<mapsto> entry_of (AnsTuple n al addrs))) = Inr m"
    by (auto simp: convert_body_eq split: if_splits)
  have "m h = Some (entry_of (AnsTuple n al addrs))"
    using convert_loop_other_key [OF post assms(2)] by simp
  then show ?thesis
    using m by (simp add: convert_results_def entry_of_def slice_py_str_list)
qed

theorem convert_results_success_entry_witness:
  "\<exists>m. convert_results
          [(PStr ''a.example.com'', AnsTuple ''a.example.com'' [] [''1.2.3.4'', ''5.6.7.8'']),
           (PStr ''b.example.com'', AnsExc (PyExc True [PStr ''timed out'']))] = Inr m
     \<and> m (PStr ''a.example.com'')
         = Some \<lparr>ips = PStr ([CHR 0x27] @ ''1.2.3.4'' @ [CHR 0x27] @ '', '' @ [CHR 0x27]
                              @ ''5.6.7.8'' @ [CHR 0x27]),
                 reason = PNone, valid = PNone\<rparr>"
  using convert_results_success_entry [of "[]" "PStr ''a.example.com''" "''a.example.com''" "[]"
      "[''1.2.3.4'', ''5.6.7.8'']"
      "[(PStr ''b.example.com'', AnsExc (PyExc True [PStr ''timed out'']))]"]
  by (simp add: py_repr_str_def py_escape_char_def py_printable_def Let_def)

section \<open>Properties of the queries and of \<^verbatim>\<open>aio_resolve\<close>\<close>

lemma aiodns_query_a_eq: "aiodns_query_a g h = Inr (h, answer_of g h)"
  by (cases "g h") (auto simp: aiodns_query_a_def answer_of_def)

lemma aio_query_eq:
  "aio_query g h w = (Inr (h, answer_of g h), w\<lparr>pr_queue := pr_queue w + 1\<rparr>)"
  by (simp add: aio_query_def aiodns_query_a_eq)

lemma pool_map_aio_query:
  "pool_map (aio_query g) hs w
     = (Inr (map (\<lambda>h. (h, answer_of g h)) hs), w\<lparr>pr_queue := pr_queue w + length hs\<rparr>)"
  by (induction hs arbitrary: w) (simp_all add: aio_query_eq)

lemma aio_resolve_eq:
  "aio_resolve g hs p c w =
     (Inr (map (\<lambda>h. (h, answer_of g h)) hs),
      w\<lparr>events := events w @ [ManagerStarted, MonitorStarted (length hs), PoolOpened p c, PoolClosed],
        pr_queue := length hs\<rparr>)"
  by (simp add: aio_resolve_def emit_def pool_map_aio_query)

lemma resolve_progress_first_poll:
  "qsize 0 = total_n \<Longrightarrow> resolve_progress qsize total_n = Some 1"
  unfolding resolve_progress_def
  by (subst resolve_progress_loop.simps) simp

text \<open>
  Claim C8 says that a caught fault is returned as a failure outcome that carries a reason
  string. The answer that \<^verbatim>\<open>aiodns_query_a\<close> returns is the exception object; the reason
  string is made later, by the conversion, and only for an instance of \<^verbatim>\<open>Exception\<close>. A
  caught \<^verbatim>\<open>KeyboardInterrupt\<close> is returned as it is and converted to an entry whose
  \<^verbatim>\<open>reason\<close> is \<^verbatim>\<open>None\<close>.
\<close>

theorem aiodns_query_a_no_reason_counterexample:
  "aiodns_query_a (\<lambda>h. Inl (PyExc False [])) (PStr ''a.example.com'')
     = Inr (PStr ''a.example.com'', AnsExc (PyExc False []))
   \<and> convert_results [(PStr ''a.example.com'', AnsExc (PyExc False []))]
     = Inr [PStr ''a.example.com'' \<mapsto> \<lparr>ips = PNone, reason = PNone, valid = PInt 0\<rparr>]"
  by (simp add: aiodns_query_a_def convert_results_def convert_body_def dict_setitem_def)

text \<open>
  Claim C8, amended. Whatever the resolver does for a hostname, \<^verbatim>\<open>aiodns_query_a\<close>
  returns the pair of the hostname and an answer and raises nothing. A triple that the
  resolver returns is the answer as it is. An exception of any class is caught by
  \<^verbatim>\<open>except BaseException\<close> and is itself the answer, with its \<^verbatim>\<open>args\<close>; converting that
  outcome gives \<^verbatim>\<open>valid = 0\<close> and, as \<^verbatim>\<open>reason\<close>, the string of the \<^verbatim>\<open>args\<close> when the
  exception is an instance of \<^verbatim>\<open>Exception\<close>, and \<^verbatim>\<open>None\<close> when it is not.
\<close>

theorem aiodns_query_a_never_raises:
  "\<exists>answer. aiodns_query_a gethostbyname_ex hostname = Inr (hostname, answer)
     \<and> (\<forall>n al ad. gethostbyname_ex hostname = Inr (n, al, ad) \<longrightarrow> answer = AnsTuple n al ad)
     \<and> (\<forall>e. gethostbyname_ex hostname = Inl e \<longrightarrow>
           answer = AnsExc e
           \<and> (hashable hostname \<longrightarrow>
                convert_results [(hostname, answer)]
                  = Inr [hostname \<mapsto>
                      \<lparr>ips = PNone,
                       reason = (if derives_Exception e then PStr (py_str_tuple (exc_args e))
                                 else PNone),
                       valid = PInt 0\<rparr>]))"
  by (cases "gethostbyname_ex hostname")
    (auto simp: aiodns_query_a_def convert_results_def convert_body_def dict_setitem_def)

theorem aiodns_query_a_never_raises_witness:
  "aiodns_query_a (\<lambda>h. Inl (PyExc True [PStr ''timed out''])) (PStr ''a.example.com'')
     = Inr (PStr ''a.example.com'', AnsExc (PyExc True [PStr ''timed out'']))
   \<and> hashable (PStr ''a.example.com'')
   \<and> convert_results [(PStr ''a.example.com'', AnsExc (PyExc True [PStr ''timed out'']))]
     = Inr [PStr ''a.example.com'' \<mapsto>
         \<lparr>ips = PNone,
          reason = PStr (''('' @ [CHR 0x27] @ ''timed out'' @ [CHR 0x27] @ '',)''),
          valid = PInt 0\<rparr>]"
proof -
  from aiodns_query_a_never_raises [of "\<lambda>h. Inl (PyExc True [PStr ''timed out''])"
      "PStr ''a.example.com''"]
  show ?thesis
    by (auto simp: py_repr_str_def py_escape_char_def py_printable_def Let_def)
qed

text \<open>
  Claim C4. For every non-empty list of distinct hostnames \<^verbatim>\<open>aio_resolve\<close> returns, and
  returns one outcome per hostname: as many outcomes as hostnames, the hostnames of the
  outcomes being the given hostnames, none twice, each outcome being the result of
  \<^verbatim>\<open>aiodns_query_a\<close> for its hostname; the progress queue has received one item per
  hostname.
\<close>

theorem aio_resolve_one_outcome_per_hostname:
  assumes "subdomain_list \<noteq> []" and "distinct subdomain_list"
  shows "\<exists>results w'.
      aio_resolve gethostbyname_ex subdomain_list process_num coroutine_num w = (Inr results, w')
    \<and> length results = length subdomain_list
    \<and> map fst results = subdomain_list
    \<and> distinct (map fst results)
    \<and> (\<forall>i < length subdomain_list.
          aiodns_query_a gethostbyname_ex (subdomain_list ! i) = Inr (results ! i))
    \<and> pr_queue w' = length subdomain_list"
  using assms by (simp add: aio_resolve_eq aiodns_query_a_eq comp_def)

theorem aio_resolve_one_outcome_per_hostname_witness:
  "[PStr ''a.example.com'', PStr ''b.example.com''] \<noteq> []
   \<and> distinct [PStr ''a.example.com'', PStr ''b.example.com'']
   \<and> (\<exists>results w'.
        aio_resolve
          (\<lambda>h. if h = PStr ''a.example.com'' then Inr (''a.example.com'', [], [''1.2.3.4''])
                else Inl (PyExc True [PStr ''timed out'']))
          [PStr ''a.example.com'', PStr ''b.example.com''] 4 64 \<lparr>events = [], pr_queue = 0\<rparr>
          = (Inr results, w')
        \<and> length results = 2
        \<and> map fst results = [PStr ''a.example.com'', PStr ''b.example.com''])"
  using aio_resolve_one_outcome_per_hostname [of
      "[PStr ''a.example.com'', PStr ''b.example.com'']"
      "\<lambda>h. if h = PStr ''a.example.com'' then Inr (''a.example.com'', [], [''1.2.3.4''])
                else Inl (PyExc True [PStr ''timed out''])"
      4 64 "\<lparr>events = [], pr_queue = 0\<rparr>"]
  by auto

text \<open>
  Claim C9 says that for the empty list \<^verbatim>\<open>aio_resolve\<close> starts neither a worker nor the
  monitor loop. There is no test for the empty list: the monitor is handed to the executor
  with total 0 and the pool is opened with its processes, as for any other list.
\<close>

theorem aio_resolve_empty_counterexample:
  "MonitorStarted 0 \<in> set (events (snd
      (aio_resolve (\<lambda>h. Inl (PyExc True [])) [] 4 64 \<lparr>events = [], pr_queue = 0\<rparr>)))
   \<and> PoolOpened 4 64 \<in> set (events (snd
      (aio_resolve (\<lambda>h. Inl (PyExc True [])) [] 4 64 \<lparr>events = [], pr_queue = 0\<rparr>)))"
  by (simp add: aio_resolve_def emit_def)

text \<open>
  Claim C9, amended. For the empty list \<^verbatim>\<open>aio_resolve\<close> returns the empty outcome list
  and makes no query, after it has started the manager, the monitor loop with total 0 and
  the pool, and closed the pool; nothing is put into the progress queue. The monitor loop
  with total 0 reads the size 0 at its first poll and ends after that one poll.
\<close>

theorem aio_resolve_empty:
  "aio_resolve gethostbyname_ex [] process_num coroutine_num w
     = (Inr [],
        w\<lparr>events := events w @ [ManagerStarted, MonitorStarted 0,
                                 PoolOpened process_num coroutine_num, PoolClosed],
          pr_queue := 0\<rparr>)
   \<and> (qsize 0 = 0 \<longrightarrow> resolve_progress qsize 0 = Some 1)"
  by (simp add: aio_resolve_def emit_def resolve_progress_first_poll)

theorem aio_resolve_empty_witness:
  "aio_resolve (\<lambda>h. Inl (PyExc True [])) [] 4 64 \<lparr>events = [], pr_queue = 0\<rparr>
     = (Inr [], \<lparr>events = [ManagerStarted, MonitorStarted 0, PoolOpened 4 64, PoolClosed],
                 pr_queue = 0\<rparr>)
   \<and> resolve_progress (\<lambda>k. 0) 0 = Some 1"
  using aio_resolve_empty [of "\<lambda>h. Inl (PyExc True [])" 4 64 "\<lparr>events = [], pr_queue = 0\<rparr>"
      "\<lambda>k. 0"]
  by simp

end
